theory Spec2Isabelle
  imports Main "HOL-Library.Sublist"
begin

section \<open>Python strings\<close>

text \<open>
  A Python \<open>str\<close> is modelled by \<^typ>\<open>string\<close>: a list of characters, each character
  standing for the code point of the same number. The model therefore covers the strings
  whose code points lie below 256; the two character classes the parser consults,
  \<open>str.isspace\<close> and \<open>str.isdigit\<close>, are written out for exactly that range.
\<close>

definition newline :: char where
  "newline = CHR 0x0A"

definition dquote :: char where
  "dquote = CHR 0x22"

definition whitespace_chars :: "char list" where
  "whitespace_chars =
     [CHR 0x09, CHR 0x0A, CHR 0x0B, CHR 0x0C, CHR 0x0D,
      CHR 0x1C, CHR 0x1D, CHR 0x1E, CHR 0x1F, CHR 0x20, CHR 0x85, CHR 0xA0]"

definition isspace :: "char \<Rightarrow> bool" where
  "isspace c \<longleftrightarrow> c \<in> set whitespace_chars"

definition digit_chars :: "char list" where
  "digit_chars = ''0123456789'' @ [CHR 0xB2, CHR 0xB3, CHR 0xB9]"

definition isdigit :: "char \<Rightarrow> bool" where
  "isdigit c \<longleftrightarrow> c \<in> set digit_chars"

text \<open>\<open>s.strip(chars)\<close> and \<open>s.strip()\<close>: drop, at both ends, every character of the class.\<close>

definition strip_where :: "(char \<Rightarrow> bool) \<Rightarrow> string \<Rightarrow> string" where
  "strip_where P s = rev (dropWhile P (rev (dropWhile P s)))"

definition strip :: "string \<Rightarrow> string" where
  "strip s = strip_where isspace s"

definition strip_chars :: "string \<Rightarrow> string \<Rightarrow> string" where
  "strip_chars chars s = strip_where (\<lambda>c. c \<in> set chars) s"

definition startswith :: "string \<Rightarrow> string \<Rightarrow> bool" where
  "startswith s p \<longleftrightarrow> prefix p s"

text \<open>\<open>content.split("\n")\<close>: the pieces between newlines, one more than there are newlines.\<close>

fun split_nl :: "string \<Rightarrow> string list" where
  "split_nl [] = [[]]"
| "split_nl (c # cs) =
     (if c = newline then [] # split_nl cs
      else (case split_nl cs of
              [] \<Rightarrow> [[c]]
            | l # ls \<Rightarrow> (c # l) # ls))"

text \<open>\<open>sep.join(xs)\<close>.\<close>

fun join :: "string \<Rightarrow> string list \<Rightarrow> string" where
  "join sep [] = []"
| "join sep [x] = x"
| "join sep (x # y # ys) = x @ sep @ join sep (y # ys)"

text \<open>
  An f-string renders a value with \<open>str\<close>: a string as itself, \<open>None\<close> as the four
  characters \<open>None\<close>.
\<close>

definition format_opt :: "string option \<Rightarrow> string" where
  "format_opt v = (case v of None \<Rightarrow> ''None'' | Some s \<Rightarrow> s)"

datatype py_error = IndexError

text \<open>\<open>line[0]\<close> raises on the empty string.\<close>

definition first_char :: "string \<Rightarrow> py_error + char" where
  "first_char s = (case s of [] \<Rightarrow> Inl IndexError | c # _ \<Rightarrow> Inr c)"


section \<open>The plan parser\<close>

text \<open>
  The local variables of \<open>_parse_plan_and_subquestions\<close> that its loop reads and writes.
\<close>

record parser_state =
  in_plan :: bool
  in_subq :: bool
  plan_lines :: "string list"
  sub_questions_acc :: "string list"

definition parser_init :: parser_state where
  "parser_init =
     \<lparr>in_plan = False, in_subq = False, plan_lines = [], sub_questions_acc = []\<rparr>"

text \<open>
  The condition \<open>in_plan and line and line[0].isdigit()\<close>, with Python's short-circuit
  evaluation: \<open>line[0]\<close> is reached only when the two conjuncts before it were true.
\<close>

definition plan_line_cond :: "parser_state \<Rightarrow> string \<Rightarrow> py_error + bool" where
  "plan_line_cond st line =
     (if \<not> in_plan st then Inr False
      else if line = [] then Inr False
      else (case first_char line of
              Inl e \<Rightarrow> Inl e
            | Inr c \<Rightarrow> Inr (isdigit c)))"

text \<open>One iteration of the loop body, on the raw line.\<close>

definition parse_step :: "parser_state \<Rightarrow> string \<Rightarrow> py_error + parser_state" where
  "parse_step st raw =
     (let line = strip raw in
      if startswith line ''plan:'' then
        Inr (st\<lparr>in_plan := True, in_subq := False\<rparr>)
      else if startswith line ''sub_questions:'' then
        Inr (st\<lparr>in_plan := False, in_subq := True\<rparr>)
      else
        (case plan_line_cond st line of
           Inl e \<Rightarrow> Inl e
         | Inr True \<Rightarrow> Inr (st\<lparr>plan_lines := plan_lines st @ [line]\<rparr>)
         | Inr False \<Rightarrow>
             (if in_subq st \<and> startswith line ''-'' then
                (let query = strip_chars [dquote] (strip_chars ''- '' line)
                 in Inr (st\<lparr>sub_questions_acc := sub_questions_acc st @ [query]\<rparr>))
              else Inr st)))"

fun parse_loop :: "parser_state \<Rightarrow> string list \<Rightarrow> py_error + parser_state" where
  "parse_loop st [] = Inr st"
| "parse_loop st (raw # rest) =
     (case parse_step st raw of
        Inl e \<Rightarrow> Inl e
      | Inr st' \<Rightarrow> parse_loop st' rest)"

definition parse_plan_and_subquestions ::
    "string \<Rightarrow> py_error + (string option \<times> string list option)" where
  "parse_plan_and_subquestions content =
     (if content = [] then Inr (None, None)
      else
        (case parse_loop parser_init (split_nl content) of
           Inl e \<Rightarrow> Inl e
         | Inr st \<Rightarrow>
             Inr (if plan_lines st \<noteq> [] then Some (join [newline] (plan_lines st)) else None,
                  if sub_questions_acc st \<noteq> [] then Some (sub_questions_acc st) else None)))"


section \<open>Messages, pipeline state and capabilities\<close>

text \<open>
  The message objects exchanged with a capability, tagged by their class; the payload is
  the message's content, read as a string.
\<close>

datatype lc_message = HumanMessage string | AIMessage string | ToolMessage string

text \<open>An entry of the conversation history: the dict \<open>{"role": ..., "content": ...}\<close>.\<close>

record chat_entry =
  role :: string
  content :: string

text \<open>
  The pipeline state the stages read. A field that holds \<open>None\<close> is \<^const>\<open>None\<close>;
  \<open>messages\<close> is the list \<open>state.get("messages", [])\<close>. The initial state that
  \<open>run_qa_flow\<close> builds holds every key, so that no stage meets a missing one.
\<close>

record qa_state =
  question :: string
  plan :: "string option"
  sub_questions :: "string list option"
  "context" :: "string option"
  draft_answer :: "string option"
  answer :: "string option"
  messages :: "chat_entry list"

text \<open>
  The dict a stage returns: for each key of the state, \<^const>\<open>None\<close> when the dict does
  not hold the key and \<open>Some v\<close> when it holds the value \<open>v\<close>.
\<close>

record state_update =
  u_question :: "string option"
  u_plan :: "string option option"
  u_sub_questions :: "string list option option"
  u_context :: "string option option"
  u_draft_answer :: "string option option"
  u_answer :: "string option option"
  u_messages :: "chat_entry list option"

definition no_update :: state_update where
  "no_update =
     \<lparr>u_question = None, u_plan = None, u_sub_questions = None, u_context = None,
      u_draft_answer = None, u_answer = None, u_messages = None\<rparr>"

text \<open>
  A capability (an agent built by \<open>create_agent\<close>) is modelled by the response it returns
  to a sequence of request messages: the \<open>"messages"\<close> entry of the result dict, or
  \<^const>\<open>None\<close> when the result has no such entry. An invocation that raises aborts the
  run, no stage catching it; the model describes the runs in which every invocation
  returns.
\<close>

type_synonym agent_result = "lc_message list option"

type_synonym capability = "lc_message list \<Rightarrow> agent_result"

text \<open>\<open>result.get("messages", [])\<close>.\<close>

definition result_messages :: "agent_result \<Rightarrow> lc_message list" where
  "result_messages result = (case result of None \<Rightarrow> [] | Some ms \<Rightarrow> ms)"

text \<open>The scan \<open>for msg in ...: if isinstance(msg, AIMessage): return ...\<close>, front to back.\<close>

fun first_ai_content :: "lc_message list \<Rightarrow> string" where
  "first_ai_content [] = []"
| "first_ai_content (AIMessage c # rest) = c"
| "first_ai_content (m # rest) = first_ai_content rest"

definition extract_last_ai_content :: "lc_message list \<Rightarrow> string" where
  "extract_last_ai_content msgs = first_ai_content (rev msgs)"

fun first_tool_content :: "lc_message list \<Rightarrow> string" where
  "first_tool_content [] = []"
| "first_tool_content (ToolMessage c # rest) = c"
| "first_tool_content (m # rest) = first_tool_content rest"


section \<open>The four stages\<close>

subsection \<open>Plan\<close>

text \<open>The slice \<open>xs[-n:]\<close> for a positive \<open>n\<close>.\<close>

definition last_n :: "nat \<Rightarrow> 'a list \<Rightarrow> 'a list" where
  "last_n n xs = drop (length xs - n) xs"

fun history_to_agent_messages :: "chat_entry list \<Rightarrow> lc_message list" where
  "history_to_agent_messages [] = []"
| "history_to_agent_messages (msg # rest) =
     (if role msg = ''user'' then
        HumanMessage (content msg) # history_to_agent_messages rest
      else if role msg = ''assistant'' then
        AIMessage (content msg) # history_to_agent_messages rest
      else history_to_agent_messages rest)"

text \<open>The list \<open>agent_messages\<close> that \<open>planner_node\<close> hands to the planning capability.\<close>

definition planner_agent_messages :: "qa_state \<Rightarrow> lc_message list" where
  "planner_agent_messages state =
     history_to_agent_messages (last_n 6 (messages state))
       @ [HumanMessage (question state)]"

definition planner_node :: "capability \<Rightarrow> qa_state \<Rightarrow> py_error + state_update" where
  "planner_node agent state =
     (let result = agent (planner_agent_messages state);
          msgs = result_messages result;
          content = extract_last_ai_content msgs
      in case parse_plan_and_subquestions content of
           Inl e \<Rightarrow> Inl e
         | Inr (p, subqs) \<Rightarrow>
             Inr (no_update\<lparr>u_plan := Some p, u_sub_questions := Some subqs\<rparr>))"

subsection \<open>Retrieve\<close>

text \<open>
  \<open>'\n'.join(f"- {sq}" for sq in sub_questions) if sub_questions else "None"\<close>: both
  \<open>None\<close> and the empty list are false.
\<close>

definition format_subqs :: "string list option \<Rightarrow> string" where
  "format_subqs subqs =
     (case subqs of
        None \<Rightarrow> ''None''
      | Some qs \<Rightarrow>
          (if qs = [] then ''None''
           else join [newline] (map (\<lambda>sq. ''- '' @ sq) qs)))"

text \<open>
  \<open>next((msg["content"] for msg in reversed(messages_history)
  if msg["role"] == "assistant"), None)\<close>.
\<close>

definition last_assistant_content :: "chat_entry list \<Rightarrow> string option" where
  "last_assistant_content history =
     map_option content (find (\<lambda>msg. role msg = ''assistant'') (rev history))"

definition context_note :: "chat_entry list \<Rightarrow> string" where
  "context_note history =
     (if 2 \<le> length history then
        (case last_assistant_content history of
           None \<Rightarrow> []
         | Some last_answer \<Rightarrow>
             (if last_answer \<noteq> [] then
                [newline] @ ''[Previous answer excerpt: '' @ take 200 last_answer
                  @ ''...]'' @ [newline]
              else []))
      else [])"

text \<open>The text \<open>user_content\<close> that \<open>retrieval_node\<close> sends to the retrieval capability.\<close>

definition retrieval_user_content :: "qa_state \<Rightarrow> string" where
  "retrieval_user_content state =
     context_note (messages state) @ ''Question: '' @ question state
       @ [newline, newline] @ ''Plan:'' @ [newline] @ format_opt (plan state)
       @ [newline, newline] @ ''Sub-Questions:'' @ [newline]
       @ format_subqs (sub_questions state)"

definition retrieval_node :: "capability \<Rightarrow> qa_state \<Rightarrow> state_update" where
  "retrieval_node agent state =
     (let result = agent [HumanMessage (retrieval_user_content state)];
          msgs = result_messages result;
          ctx = first_tool_content (rev msgs)
      in no_update\<lparr>u_context := Some (Some ctx)\<rparr>)"

subsection \<open>Summarize\<close>

definition summarization_user_content :: "qa_state \<Rightarrow> string" where
  "summarization_user_content state =
     ''Question: '' @ question state @ [newline, newline] @ ''Context:'' @ [newline]
       @ format_opt (context state)"

definition summarization_node :: "capability \<Rightarrow> qa_state \<Rightarrow> state_update" where
  "summarization_node agent state =
     (let result = agent [HumanMessage (summarization_user_content state)];
          msgs = result_messages result;
          draft = extract_last_ai_content msgs
      in no_update\<lparr>u_draft_answer := Some (Some draft)\<rparr>)"

subsection \<open>Verify\<close>

definition verification_user_content :: "qa_state \<Rightarrow> string" where
  "verification_user_content state =
     ''Question: '' @ question state @ [newline, newline] @ ''Context:'' @ [newline]
       @ format_opt (context state) @ [newline, newline] @ ''Draft Answer:'' @ [newline]
       @ format_opt (draft_answer state) @ [newline, newline]
       @ ''Please verify and correct the draft answer, removing any unsupported claims.''"

definition verification_node :: "capability \<Rightarrow> qa_state \<Rightarrow> state_update" where
  "verification_node agent state =
     (let result = agent [HumanMessage (verification_user_content state)];
          msgs = result_messages result;
          ans = extract_last_ai_content msgs
      in no_update\<lparr>u_answer := Some (Some ans),
                    u_messages := Some [\<lparr>role = ''assistant'', content = ans\<rparr>]\<rparr>)"


section \<open>The graph and the entry point\<close>

text \<open>The four module-level agents of \<open>agents.py\<close>.\<close>

record agents =
  planner_agent :: capability
  retrieval_agent :: capability
  summarization_agent :: capability
  verification_agent :: capability

text \<open>
  The rule by which the \<open>messages\<close> channel of the state takes a value written to it:
  from the value it holds and the value written, the value it holds next. The rule is
  fixed by the declaration of \<open>QAState\<close> in \<open>state.py\<close>, which is not among the sources
  at hand, so the graph and the entry point take it as a parameter. A key declared as a
  plain \<open>list\<close> keeps the last value written; a key declared
  \<open>Annotated[list, operator.add]\<close> keeps the old value followed by the new one.
\<close>

type_synonym reducer = "chat_entry list \<Rightarrow> chat_entry list \<Rightarrow> chat_entry list"

definition last_value :: reducer where
  "last_value old new = new"

definition operator_add :: reducer where
  "operator_add old new = old @ new"

text \<open>
  Writing a dict to the state, be it the dict a stage returns or the input of a run:
  each key the dict holds is written to its channel, and the other keys keep their
  value. Every key but \<open>messages\<close> holds a single value, which the written one replaces.
\<close>

definition apply_update :: "reducer \<Rightarrow> qa_state \<Rightarrow> state_update \<Rightarrow> qa_state" where
  "apply_update reduce state u =
     \<lparr>question = (case u_question u of None \<Rightarrow> question state | Some v \<Rightarrow> v),
      plan = (case u_plan u of None \<Rightarrow> plan state | Some v \<Rightarrow> v),
      sub_questions = (case u_sub_questions u of None \<Rightarrow> sub_questions state | Some v \<Rightarrow> v),
      context = (case u_context u of None \<Rightarrow> context state | Some v \<Rightarrow> v),
      draft_answer = (case u_draft_answer u of None \<Rightarrow> draft_answer state | Some v \<Rightarrow> v),
      answer = (case u_answer u of None \<Rightarrow> answer state | Some v \<Rightarrow> v),
      messages =
        (case u_messages u of
           None \<Rightarrow> messages state
         | Some new \<Rightarrow> reduce (messages state) new)\<rparr>"

text \<open>The input of a run as a dict: \<open>initial_state\<close> holds every key.\<close>

definition input_update :: "qa_state \<Rightarrow> state_update" where
  "input_update initial_state =
     \<lparr>u_question = Some (question initial_state), u_plan = Some (plan initial_state),
      u_sub_questions = Some (sub_questions initial_state),
      u_context = Some (context initial_state),
      u_draft_answer = Some (draft_answer initial_state),
      u_answer = Some (answer initial_state),
      u_messages = Some (messages initial_state)\<rparr>"

text \<open>
  The checkpointer: the latest state of each thread, by thread identifier. A thread that
  was never run has no entry, and \<open>graph.get_state(config)\<close> is the lookup. The state of
  a thread without a checkpoint holds no value, the history being empty.
\<close>

type_synonym checkpoints = "string \<rightharpoonup> qa_state"

definition blank_state :: qa_state where
  "blank_state =
     \<lparr>question = [], plan = None, sub_questions = None, context = None,
      draft_answer = None, answer = None, messages = []\<rparr>"

text \<open>
  \<open>graph.invoke(initial_state, config)\<close> on the graph that \<open>create_qa_graph\<close> compiles
  with the checkpointer. The run resumes the thread that \<open>config\<close> names: the input is
  written to the state of the thread's checkpoint, the stages run in the order of the
  edges (planner, retrieval, summarization, verification), the dict each one returns
  being written to the state in turn, and the final state becomes the checkpoint of the
  thread.
\<close>

definition graph_invoke ::
    "reducer \<Rightarrow> agents \<Rightarrow> checkpoints \<Rightarrow> string \<Rightarrow> qa_state
       \<Rightarrow> py_error + (qa_state \<times> checkpoints)" where
  "graph_invoke reduce ags saver thread_id initial_state =
     (let resumed = (case saver thread_id of None \<Rightarrow> blank_state | Some st \<Rightarrow> st);
          s0 = apply_update reduce resumed (input_update initial_state)
      in case planner_node (planner_agent ags) s0 of
           Inl e \<Rightarrow> Inl e
         | Inr u1 \<Rightarrow>
             (let s1 = apply_update reduce s0 u1;
                  s2 = apply_update reduce s1 (retrieval_node (retrieval_agent ags) s1);
                  s3 = apply_update reduce s2
                         (summarization_node (summarization_agent ags) s2);
                  s4 = apply_update reduce s3
                         (verification_node (verification_agent ags) s3)
              in Inr (s4, saver(thread_id \<mapsto> s4))))"

text \<open>The dict \<open>run_qa_flow\<close> returns: the final state and the key \<open>session_id\<close>.\<close>

record qa_result = qa_state +
  session_id :: string

definition with_session_id :: "qa_state \<Rightarrow> string \<Rightarrow> qa_result" where
  "with_session_id final_state thread_id =
     \<lparr>question = question final_state, plan = plan final_state,
      sub_questions = sub_questions final_state, context = context final_state,
      draft_answer = draft_answer final_state, answer = answer final_state,
      messages = messages final_state, session_id = thread_id\<rparr>"

text \<open>
  \<open>session_id if session_id else str(uuid.uuid4())\<close>; the second argument is the token
  the generator yields. Both \<open>None\<close> and the empty string are false.
\<close>

definition thread_id_for :: "string option \<Rightarrow> string \<Rightarrow> string" where
  "thread_id_for sid uuid4 =
     (case sid of
        None \<Rightarrow> uuid4
      | Some s \<Rightarrow> (if s \<noteq> [] then s else uuid4))"

definition initial_messages :: "qa_state option \<Rightarrow> string \<Rightarrow> chat_entry list" where
  "initial_messages existing_state q =
     (case existing_state of
        None \<Rightarrow> [\<lparr>role = ''user'', content = q\<rparr>]
      | Some vals \<Rightarrow>
          (if messages vals \<noteq> [] then messages vals @ [\<lparr>role = ''user'', content = q\<rparr>]
           else [\<lparr>role = ''user'', content = q\<rparr>]))"

text \<open>
  \<open>run_qa_flow\<close>, with the checkpointer passed in and returned, and with the token of the
  identifier generator as an argument. The thread identifier reaches both
  \<open>graph.get_state\<close> and \<open>graph.invoke\<close> through \<open>config\<close>.
\<close>

definition run_qa_flow ::
    "reducer \<Rightarrow> agents \<Rightarrow> string \<Rightarrow> checkpoints \<Rightarrow> string \<Rightarrow> string option
       \<Rightarrow> py_error + (qa_result \<times> checkpoints)" where
  "run_qa_flow reduce ags uuid4 saver q sid =
     (let thread_id = thread_id_for sid uuid4;
          existing_state = saver thread_id;
          msgs = initial_messages existing_state q;
          initial_state =
            \<lparr>question = q, plan = None, sub_questions = None, context = None,
             draft_answer = None, answer = None, messages = msgs\<rparr>
      in case graph_invoke reduce ags saver thread_id initial_state of
           Inl e \<Rightarrow> Inl e
         | Inr (final_state, saver') \<Rightarrow>
             Inr (with_session_id final_state thread_id, saver'))"


section \<open>Sample inputs and the wording of the specification\<close>

text \<open>
  The planner output of the specification's parser example: a \<open>plan:\<close> section with the
  lines \<open>1. A\<close> and \<open>2. B\<close>, then a \<open>sub_questions:\<close> section with a quoted and an
  unquoted bullet.
\<close>

definition example_output :: string where
  "example_output =
     ''plan:'' @ [newline] @ ''1. A'' @ [newline] @ ''2. B'' @ [newline]
       @ ''sub_questions:'' @ [newline] @ ''- '' @ [dquote] @ ''x'' @ [dquote] @ [newline]
       @ ''- y''"

text \<open>
  The cleaning of a sub-question line as the specification words it: the leading \<open>"- "\<close>
  is removed, and then the quote characters around what is left.
\<close>

definition spec_clean_subquestion :: "string \<Rightarrow> string" where
  "spec_clean_subquestion line =
     strip_chars [dquote] (if startswith line ''- '' then drop 2 line else line)"

text \<open>
  Capabilities for the examples: agents that answer in the expected format (the retrieval
  agent calling its tool twice), and agents whose responses hold no reply of their own.
\<close>

definition demo_agents :: agents where
  "demo_agents =
     \<lparr>planner_agent = (\<lambda>ms. Some (ms @ [AIMessage
         (''plan:'' @ [newline] @ ''1. look up'' @ [newline] @ ''sub_questions:'' @ [newline]
            @ ''- what'')])),
      retrieval_agent = (\<lambda>ms. Some (ms @
         [AIMessage [], ToolMessage ''chunk one'', AIMessage [], ToolMessage ''chunk two'',
          AIMessage ''done''])),
      summarization_agent = (\<lambda>ms. Some (ms @ [AIMessage ''draft''])),
      verification_agent = (\<lambda>ms. Some (ms @ [AIMessage ''final'']))\<rparr>"

definition silent_agents :: agents where
  "silent_agents =
     \<lparr>planner_agent = (\<lambda>ms. None), retrieval_agent = (\<lambda>ms. None),
      summarization_agent = (\<lambda>ms. Some ms), verification_agent = (\<lambda>ms. Some ms)\<rparr>"

text \<open>The state \<open>run_qa_flow\<close> starts a new session from.\<close>

definition fresh_state :: "string \<Rightarrow> qa_state" where
  "fresh_state q =
     \<lparr>question = q, plan = None, sub_questions = None, context = None,
      draft_answer = None, answer = None, messages = [\<lparr>role = ''user'', content = q\<rparr>]\<rparr>"


text \<open>
  Two calls of \<open>run_qa_flow\<close> in a process that has run no session yet, the second with
  the session identifier the first returned.
\<close>

definition two_runs ::
    "reducer \<Rightarrow> agents \<Rightarrow> string \<Rightarrow> string \<Rightarrow> string \<Rightarrow> py_error + (qa_result \<times> qa_result)" where
  "two_runs reduce ags sid q1 q2 =
     (case run_qa_flow reduce ags ''3f0c9a52-6b1e-4d7a-9c1f-2e8b7a4d5c60'' Map.empty q1 (Some sid) of
        Inl e \<Rightarrow> Inl e
      | Inr (r1, saver1) \<Rightarrow>
          (case run_qa_flow reduce ags ''8a1d2f70-0c55-4e0b-b0a3-5d9e61c7f214'' saver1 q2
                  (Some (session_id r1)) of
             Inl e \<Rightarrow> Inl e
           | Inr (r2, saver2) \<Rightarrow> Inr (r1, r2)))"

text \<open>
  A session in its fifth turn: four completed turns, each a user entry and an assistant
  entry, and the entry of the question being asked. A session in its second turn.
\<close>

definition long_session :: qa_state where
  "long_session =
     \<lparr>question = ''q5'', plan = None, sub_questions = None, context = None,
      draft_answer = None, answer = None,
      messages =
        [\<lparr>role = ''user'', content = ''q1''\<rparr>, \<lparr>role = ''assistant'', content = ''a1''\<rparr>,
         \<lparr>role = ''user'', content = ''q2''\<rparr>, \<lparr>role = ''assistant'', content = ''a2''\<rparr>,
         \<lparr>role = ''user'', content = ''q3''\<rparr>, \<lparr>role = ''assistant'', content = ''a3''\<rparr>,
         \<lparr>role = ''user'', content = ''q4''\<rparr>, \<lparr>role = ''assistant'', content = ''a4''\<rparr>,
         \<lparr>role = ''user'', content = ''q5''\<rparr>]\<rparr>"

definition second_turn :: qa_state where
  "second_turn =
     \<lparr>question = ''q2'', plan = None, sub_questions = None, context = None,
      draft_answer = None, answer = None,
      messages =
        [\<lparr>role = ''user'', content = ''q1''\<rparr>, \<lparr>role = ''assistant'', content = ''a1''\<rparr>,
         \<lparr>role = ''user'', content = ''q2''\<rparr>]\<rparr>"

text \<open>
  The message sequence of the Plan stage as the specification words it: the window is
  the last six turns, a turn being a user entry and an assistant entry, hence the last
  twelve entries.
\<close>

definition spec_planner_agent_messages :: "qa_state \<Rightarrow> lc_message list" where
  "spec_planner_agent_messages state =
     history_to_agent_messages (last_n 12 (messages state))
       @ [HumanMessage (question state)]"

text \<open>
  The number of prior turns in a history, each completed turn having left one assistant
  entry.
\<close>

definition spec_prior_turns :: "chat_entry list \<Rightarrow> nat" where
  "spec_prior_turns history = length (filter (\<lambda>msg. role msg = ''assistant'') history)"


section \<open>Properties of the plan parser\<close>

subsection \<open>Stripping\<close>

text \<open>
  What is stripped lies at the two ends and consists of characters of the class only, and
  what is left neither starts nor ends with a character of the class.
\<close>

lemma strip_where_sandwich:
  "\<exists>l r. s = l @ strip_where P s @ r \<and> (\<forall>c \<in> set l. P c) \<and> (\<forall>c \<in> set r. P c)"
proof -
  define t where "t = dropWhile P s"
  have front: "s = takeWhile P s @ t"
    by (simp add: t_def)
  have rear: "rev t = takeWhile P (rev t) @ dropWhile P (rev t)"
    by simp
  then have "t = rev (dropWhile P (rev t)) @ rev (takeWhile P (rev t))"
    by (metis rev_append rev_rev_ident)
  with front have "s = takeWhile P s @ strip_where P s @ rev (takeWhile P (rev t))"
    by (simp add: strip_where_def t_def)
  moreover have "\<forall>c \<in> set (takeWhile P s). P c"
    by (auto dest: set_takeWhileD)
  moreover have "\<forall>c \<in> set (rev (takeWhile P (rev t))). P c"
    by (auto dest: set_takeWhileD)
  ultimately show ?thesis by blast
qed

lemma strip_where_ends:
  assumes "strip_where P s \<noteq> []"
  shows "\<not> P (hd (strip_where P s)) \<and> \<not> P (last (strip_where P s))"
proof -
  define t where "t = dropWhile P s"
  define u where "u = dropWhile P (rev t)"
  have u: "u \<noteq> []" "strip_where P s = rev u"
    using assms by (simp_all add: strip_where_def t_def u_def)
  have last_ok: "\<not> P (hd u)"
    using u(1) unfolding u_def by (rule hd_dropWhile)
  have "t \<noteq> []" using u(1) by (auto simp: u_def)
  then have first_t: "\<not> P (hd t)"
    unfolding t_def by (rule hd_dropWhile)
  obtain k where "rev t = k @ u"
    unfolding u_def by (metis takeWhile_dropWhile_id)
  then have "t = rev u @ rev k"
    by (metis rev_append rev_rev_ident)
  with u(1) have "hd t = hd (rev u)" by simp
  with first_t last_ok u show ?thesis
    by (simp add: hd_rev last_rev)
qed

subsection \<open>The loop body always returns\<close>

lemma plan_line_cond_returns:
  "plan_line_cond st line = Inr (in_plan st \<and> (\<exists>c cs. line = c # cs \<and> isdigit c))"
  by (cases line) (simp_all add: plan_line_cond_def first_char_def)

lemma parse_step_returns: "\<exists>st'. parse_step st raw = Inr st'"
  by (simp add: parse_step_def plan_line_cond_returns Let_def split: bool.split)

lemma parse_loop_returns: "\<exists>st'. parse_loop st ls = Inr st'"
proof (induction ls arbitrary: st)
  case Nil
  show ?case by simp
next
  case (Cons raw rest)
  obtain st1 where "parse_step st raw = Inr st1"
    using parse_step_returns by blast
  with Cons.IH [of st1] show ?case by simp
qed

lemma headers_exclusive: "startswith l ''sub_questions:'' \<Longrightarrow> \<not> startswith l ''plan:''"
  by (cases l) (auto simp: startswith_def)

lemma parse_step_plan_header:
  "startswith (strip raw) ''plan:'' \<Longrightarrow>
     parse_step st raw = Inr (st\<lparr>in_plan := True, in_subq := False\<rparr>)"
  by (simp add: parse_step_def)

lemma parse_step_subq_header:
  "startswith (strip raw) ''sub_questions:'' \<Longrightarrow>
     parse_step st raw = Inr (st\<lparr>in_plan := False, in_subq := True\<rparr>)"
  using headers_exclusive [of "strip raw"] by (simp add: parse_step_def)

lemma parse_step_no_header:
  assumes "\<not> startswith (strip raw) ''plan:''" "\<not> startswith (strip raw) ''sub_questions:''"
  shows "\<exists>st'. parse_step st raw = Inr st' \<and> in_plan st' = in_plan st \<and> in_subq st' = in_subq st"
  using assms by (simp add: parse_step_def plan_line_cond_returns Let_def split: bool.split)

lemma parse_step_idle:
  assumes "\<not> in_plan st" "\<not> in_subq st"
     "\<not> startswith (strip raw) ''plan:''" "\<not> startswith (strip raw) ''sub_questions:''"
  shows "parse_step st raw = Inr st"
  using assms by (simp add: parse_step_def plan_line_cond_returns Let_def)

lemma parse_loop_idle:
  assumes "\<not> in_plan st" "\<not> in_subq st"
    "\<forall>l \<in> set ls. \<not> startswith (strip l) ''plan:'' \<and> \<not> startswith (strip l) ''sub_questions:''"
  shows "parse_loop st ls = Inr st"
  using assms by (induction ls) (simp_all add: parse_step_idle)

lemma parse_step_subq_line:
  assumes "in_subq st" "startswith (strip raw) ''-''"
  shows "parse_step st raw =
     Inr (st\<lparr>sub_questions_acc := sub_questions_acc st
        @ [strip_chars [dquote] (strip_chars ''- '' (strip raw))]\<rparr>)"
proof -
  obtain cs where l: "strip raw = CHR ''-'' # cs"
    using assms(2) by (cases "strip raw") (auto simp: startswith_def)
  have "\<not> isdigit (CHR ''-'')" by (simp add: isdigit_def digit_chars_def)
  with l assms(1) show ?thesis
    by (simp add: parse_step_def plan_line_cond_returns Let_def startswith_def)
qed

lemma parse_step_plan_line:
  assumes "in_plan st" "strip raw = c # cs" "isdigit c"
  shows "parse_step st raw = Inr (st\<lparr>plan_lines := plan_lines st @ [strip raw]\<rparr>)"
proof -
  have "c \<noteq> CHR ''p''" "c \<noteq> CHR ''s''"
    using assms(3) by (auto simp: isdigit_def digit_chars_def)
  with assms show ?thesis
    by (simp add: parse_step_def plan_line_cond_returns Let_def startswith_def)
qed

lemma parse_returns: "\<exists>p sq. parse_plan_and_subquestions reply = Inr (p, sq)"
proof -
  obtain st where "parse_loop parser_init (split_nl reply) = Inr st"
    using parse_loop_returns by blast
  then show ?thesis
    by (simp add: parse_plan_and_subquestions_def)
qed

lemmas parser_defs =
  parse_plan_and_subquestions_def parse_step_def plan_line_cond_def first_char_def
  parser_init_def strip_def strip_chars_def strip_where_def startswith_def isspace_def
  isdigit_def whitespace_chars_def digit_chars_def newline_def dquote_def

subsection \<open>Section headers\<close>

text \<open>
  Claim C2, as the code has it. A line switches the mode exactly when, after trimming, it
  \<^emph>\<open>starts with\<close> a header: a line starting with \<open>plan:\<close> opens plan mode and closes
  sub-question mode, a line starting with \<open>sub_questions:\<close> does the inverse, and every
  other line leaves both modes as they were. Whatever follows the header on the same
  line is ignored.
\<close>

theorem parse_step_mode_switch:
  "(startswith (strip raw) ''plan:'' \<longrightarrow>
      parse_step st raw = Inr (st\<lparr>in_plan := True, in_subq := False\<rparr>)) \<and>
   (startswith (strip raw) ''sub_questions:'' \<longrightarrow>
      parse_step st raw = Inr (st\<lparr>in_plan := False, in_subq := True\<rparr>)) \<and>
   (\<not> startswith (strip raw) ''plan:'' \<and> \<not> startswith (strip raw) ''sub_questions:'' \<longrightarrow>
      (\<exists>st'. parse_step st raw = Inr st' \<and> in_plan st' = in_plan st \<and> in_subq st' = in_subq st))"
  using parse_step_plan_header parse_step_subq_header parse_step_no_header by blast

theorem parse_step_mode_switch_witness:
  "startswith (strip ''  plan: outline'') ''plan:'' \<and>
   parse_step parser_init ''  plan: outline'' = Inr (parser_init\<lparr>in_plan := True, in_subq := False\<rparr>) \<and>
   startswith (strip ''sub_questions: below '') ''sub_questions:'' \<and>
   parse_step parser_init ''sub_questions: below '' = Inr (parser_init\<lparr>in_plan := False, in_subq := True\<rparr>) \<and>
   \<not> startswith (strip ''The plan: none'') ''plan:'' \<and>
   \<not> startswith (strip ''The plan: none'') ''sub_questions:'' \<and>
   (\<exists>st'. parse_step (parser_init\<lparr>in_plan := True\<rparr>) ''The plan: none'' = Inr st' \<and> in_plan st' \<and> \<not> in_subq st')"
  using parse_step_mode_switch [of "''  plan: outline''" parser_init]
    parse_step_mode_switch [of "''sub_questions: below ''" parser_init]
    parse_step_mode_switch [of "''The plan: none''" "parser_init\<lparr>in_plan := True\<rparr>"]
  by (simp add: strip_def strip_where_def startswith_def isspace_def whitespace_chars_def parser_init_def)

text \<open>
  Claim C2 as stated asks for equality with the header. The line \<open>plan: outline\<close> is
  not equal to \<open>plan:\<close> after trimming, and yet it opens plan mode, so that the numbered
  line after it is collected.
\<close>

theorem plan_header_with_trailing_text_counterexample:
  "strip ''plan: outline'' \<noteq> ''plan:'' \<and>
   parse_step parser_init ''plan: outline'' = Inr (parser_init\<lparr>in_plan := True, in_subq := False\<rparr>) \<and>
   parse_plan_and_subquestions (''plan: outline'' @ [newline] @ ''1. A'') = Inr (Some ''1. A'', None)"
  by (simp add: parser_defs)

subsection \<open>Totality and null results\<close>

text \<open>
  Claim C7. The parser returns a pair for every input and never raises; it returns
  \<open>(None, None)\<close> for the empty input and for an input none of whose lines starts, after
  trimming, with one of the two headers; and a field whose list of collected lines ended
  empty is \<open>None\<close>.
\<close>

theorem parse_plan_and_subquestions_total:
  "(\<exists>p sq. parse_plan_and_subquestions reply = Inr (p, sq)) \<and>
   parse_plan_and_subquestions [] = Inr (None, None) \<and>
   ((\<forall>l \<in> set (split_nl reply).
        \<not> startswith (strip l) ''plan:'' \<and> \<not> startswith (strip l) ''sub_questions:'') \<longrightarrow>
      parse_plan_and_subquestions reply = Inr (None, None)) \<and>
   (\<exists>st p sq. parse_loop parser_init (split_nl reply) = Inr st \<and>
      parse_plan_and_subquestions reply = Inr (p, sq) \<and>
      (plan_lines st = [] \<longrightarrow> p = None) \<and>
      (sub_questions_acc st = [] \<longrightarrow> sq = None))"
proof -
  obtain st where st: "parse_loop parser_init (split_nl reply) = Inr st"
    using parse_loop_returns by blast
  have returns: "\<exists>p sq. parse_plan_and_subquestions reply = Inr (p, sq)"
    using st by (simp add: parse_plan_and_subquestions_def)
  have empty: "parse_plan_and_subquestions [] = Inr (None, None)"
    by (simp add: parse_plan_and_subquestions_def)
  have prose: "parse_plan_and_subquestions reply = Inr (None, None)"
    if "\<forall>l \<in> set (split_nl reply).
        \<not> startswith (strip l) ''plan:'' \<and> \<not> startswith (strip l) ''sub_questions:''"
  proof -
    have "parse_loop parser_init (split_nl reply) = Inr parser_init"
      using that by (intro parse_loop_idle) (simp_all add: parser_init_def)
    then show ?thesis
      by (simp add: parse_plan_and_subquestions_def parser_init_def)
  qed
  have init_empty: "parse_loop parser_init (split_nl []) = Inr parser_init"
    by (simp add: parser_defs)
  have nulls: "\<exists>p sq. parse_plan_and_subquestions reply = Inr (p, sq) \<and>
      (plan_lines st = [] \<longrightarrow> p = None) \<and> (sub_questions_acc st = [] \<longrightarrow> sq = None)"
  proof (cases "reply = []")
    case True
    with st init_empty have "st = parser_init" by simp
    with True show ?thesis
      by (simp add: parse_plan_and_subquestions_def)
  next
    case False
    with st show ?thesis
      by (simp add: parse_plan_and_subquestions_def)
  qed
  from returns empty prose st nulls show ?thesis by blast
qed

theorem parse_plan_and_subquestions_total_witness:
  "split_nl (''Here is my answer.'' @ [newline] @ ''the plan: none'')
     = [''Here is my answer.'', ''the plan: none''] \<and>
   \<not> startswith (strip ''Here is my answer.'') ''plan:'' \<and>
   \<not> startswith (strip ''Here is my answer.'') ''sub_questions:'' \<and>
   \<not> startswith (strip ''the plan: none'') ''plan:'' \<and>
   \<not> startswith (strip ''the plan: none'') ''sub_questions:'' \<and>
   parse_plan_and_subquestions (''Here is my answer.'' @ [newline] @ ''the plan: none'')
     = Inr (None, None)"
  using parse_plan_and_subquestions_total
    [of "''Here is my answer.'' @ [newline] @ ''the plan: none''"]
  by (simp add: strip_def strip_where_def startswith_def isspace_def whitespace_chars_def
      newline_def)

subsection \<open>Collected lines\<close>

text \<open>
  Claim C8, as the code has it. In sub-question mode a line that starts with \<open>-\<close> is
  appended to the sub-questions after \<^emph>\<open>every\<close> leading and trailing \<open>-\<close> and space has
  been removed, and then every leading and trailing quote character. In plan mode a
  trimmed line that starts with a digit is appended to the plan as it is. On the example
  of the specification the parser returns the plan \<open>1. A\<close>, \<open>2. B\<close> and the sub-questions
  \<open>x\<close>, \<open>y\<close>.
\<close>

theorem parse_step_collects:
  "(in_subq st \<and> startswith (strip raw) ''-'' \<longrightarrow>
      parse_step st raw =
        Inr (st\<lparr>sub_questions_acc := sub_questions_acc st
               @ [strip_chars [dquote] (strip_chars ''- '' (strip raw))]\<rparr>)) \<and>
   (in_plan st \<and> strip raw \<noteq> [] \<and> isdigit (hd (strip raw)) \<longrightarrow>
      parse_step st raw = Inr (st\<lparr>plan_lines := plan_lines st @ [strip raw]\<rparr>)) \<and>
   parse_plan_and_subquestions example_output
     = Inr (Some (''1. A'' @ [newline] @ ''2. B''), Some [''x'', ''y''])"
proof -
  have plan_line: "parse_step st raw = Inr (st\<lparr>plan_lines := plan_lines st @ [strip raw]\<rparr>)"
    if mode: "in_plan st" and nonempty: "strip raw \<noteq> []"
      and digit: "isdigit (hd (strip raw))"
  proof -
    obtain c cs where "strip raw = c # cs"
      using nonempty by (cases "strip raw") auto
    with mode digit show ?thesis
      using parse_step_plan_line [of st raw c cs] by simp
  qed
  have example: "parse_plan_and_subquestions example_output
     = Inr (Some (''1. A'' @ [newline] @ ''2. B''), Some [''x'', ''y''])"
    by (simp add: example_output_def parser_defs)
  from plan_line example show ?thesis
    using parse_step_subq_line by blast
qed

theorem parse_step_collects_witness:
  "in_subq (parser_init\<lparr>in_subq := True\<rparr>) \<and> startswith (strip ('' - '' @ [dquote] @ ''top-k search'' @ [dquote] @ '' -'')) ''-'' \<and>
   parse_step (parser_init\<lparr>in_subq := True\<rparr>) ('' - '' @ [dquote] @ ''top-k search'' @ [dquote] @ '' -'')
     = Inr (parser_init\<lparr>in_subq := True, sub_questions_acc := [''top-k search'']\<rparr>) \<and>
   in_plan (parser_init\<lparr>in_plan := True\<rparr>) \<and> strip ''  1. A  '' \<noteq> [] \<and> isdigit (hd (strip ''  1. A  '')) \<and>
   parse_step (parser_init\<lparr>in_plan := True\<rparr>) ''  1. A  ''
     = Inr (parser_init\<lparr>in_plan := True, plan_lines := [''1. A'']\<rparr>)"
  using parse_step_collects [of "parser_init\<lparr>in_subq := True\<rparr>" "'' - '' @ [dquote] @ ''top-k search'' @ [dquote] @ '' -''"]
    parse_step_collects [of "parser_init\<lparr>in_plan := True\<rparr>" "''  1. A  ''"]
  by (simp add: strip_def strip_chars_def strip_where_def startswith_def isspace_def isdigit_def whitespace_chars_def digit_chars_def dquote_def parser_init_def)

text \<open>
  Claim C8 as stated removes only the leading \<open>"- "\<close> and the surrounding quotes. The
  code removes dashes and spaces at the end of the line as well: the bullet
  \<open>- top-k -\<close> yields \<open>top-k\<close>, where the wording of the claim yields \<open>top-k -\<close>.
\<close>

theorem subquestion_strip_counterexample:
  "parse_plan_and_subquestions (''sub_questions:'' @ [newline] @ ''- top-k -'')
     = Inr (None, Some [''top-k'']) \<and>
   spec_clean_subquestion ''- top-k -'' = ''top-k -''"
  by (simp add: spec_clean_subquestion_def parser_defs)


section \<open>Properties of the stages\<close>

subsection \<open>Scanning a response\<close>

lemma first_tool_content_none:
  "(\<forall>c. ToolMessage c \<notin> set msgs) \<Longrightarrow> first_tool_content msgs = []"
  by (induction msgs rule: first_tool_content.induct) auto

lemma first_tool_content_skip:
  "(\<forall>c. ToolMessage c \<notin> set xs) \<Longrightarrow> first_tool_content (xs @ ys) = first_tool_content ys"
proof (induction xs)
  case Nil
  show ?case by simp
next
  case (Cons m xs)
  then show ?case by (cases m) auto
qed

lemma first_ai_content_none:
  "(\<forall>c. AIMessage c \<notin> set msgs) \<Longrightarrow> first_ai_content msgs = []"
  by (induction msgs rule: first_ai_content.induct) auto

lemma first_ai_content_skip:
  "(\<forall>c. AIMessage c \<notin> set xs) \<Longrightarrow> first_ai_content (xs @ ys) = first_ai_content ys"
proof (induction xs)
  case Nil
  show ?case by simp
next
  case (Cons m xs)
  then show ?case by (cases m) auto
qed

lemma extract_last_ai_content_none:
  "(\<forall>c. AIMessage c \<notin> set msgs) \<Longrightarrow> extract_last_ai_content msgs = []"
  by (simp add: extract_last_ai_content_def first_ai_content_none)

lemma extract_last_ai_content_last:
  assumes "\<forall>c. AIMessage c \<notin> set post"
  shows "extract_last_ai_content (pre @ AIMessage a # post) = a"
  using assms first_ai_content_skip [of "rev post" "AIMessage a # rev pre"]
  by (simp add: extract_last_ai_content_def)

lemma first_tool_content_last:
  assumes "\<forall>c'. ToolMessage c' \<notin> set post"
  shows "first_tool_content (rev post @ ToolMessage c # rev pre) = c"
  using assms first_tool_content_skip [of "rev post" "ToolMessage c # rev pre"] by simp

subsection \<open>Retrieve: the context\<close>

text \<open>
  Claim C6. The Retrieve stage sets \<open>context\<close> to the content of the last tool-result
  message of the response, and to the empty string when the response holds no
  tool-result message.
\<close>

theorem retrieval_context_from_last_tool_result:
  "((\<forall>c. ToolMessage c \<notin> set (result_messages (agent [HumanMessage (retrieval_user_content st)]))) \<longrightarrow>
      u_context (retrieval_node agent st) = Some (Some [])) \<and>
   (result_messages (agent [HumanMessage (retrieval_user_content st)]) = pre @ ToolMessage c # post \<and>
      (\<forall>c'. ToolMessage c' \<notin> set post) \<longrightarrow>
      u_context (retrieval_node agent st) = Some (Some c))"
  by (auto simp: retrieval_node_def Let_def no_update_def first_tool_content_none
      first_tool_content_last)

theorem retrieval_context_from_last_tool_result_witness:
  "(\<forall>c. ToolMessage c \<notin> set (result_messages (retrieval_agent silent_agents [HumanMessage (retrieval_user_content (fresh_state ''q''))]))) \<and>
   u_context (retrieval_node (retrieval_agent silent_agents) (fresh_state ''q'')) = Some (Some []) \<and>
   result_messages (retrieval_agent demo_agents [HumanMessage (retrieval_user_content (fresh_state ''q''))])
     = [HumanMessage (retrieval_user_content (fresh_state ''q'')), AIMessage [], ToolMessage ''chunk one'', AIMessage []]
         @ ToolMessage ''chunk two'' # [AIMessage ''done''] \<and>
   (\<forall>c'. ToolMessage c' \<notin> set [AIMessage ''done'']) \<and>
   u_context (retrieval_node (retrieval_agent demo_agents) (fresh_state ''q'')) = Some (Some ''chunk two'')"
  using retrieval_context_from_last_tool_result [of "retrieval_agent silent_agents" "fresh_state ''q''"]
    retrieval_context_from_last_tool_result [of "retrieval_agent demo_agents" "fresh_state ''q''"
      "[HumanMessage (retrieval_user_content (fresh_state ''q'')), AIMessage [], ToolMessage ''chunk one'', AIMessage []]"
      "''chunk two''" "[AIMessage ''done'']"]
  by (simp add: silent_agents_def demo_agents_def result_messages_def)

subsection \<open>Summarize and Verify: answers are strings\<close>

text \<open>
  Claim C10. The Summarize stage always sets \<open>draft_answer\<close> to a string and the Verify
  stage always sets \<open>answer\<close> to a string, never to \<open>None\<close>; when the response of the
  capability holds no assistant message, the string is empty.
\<close>

theorem draft_and_answer_are_strings:
  "(\<exists>d. u_draft_answer (summarization_node agent st) = Some (Some d)) \<and>
   (\<exists>a. u_answer (verification_node agent st) = Some (Some a)) \<and>
   ((\<forall>c. AIMessage c \<notin> set (result_messages (agent [HumanMessage (summarization_user_content st)]))) \<longrightarrow>
      u_draft_answer (summarization_node agent st) = Some (Some [])) \<and>
   ((\<forall>c. AIMessage c \<notin> set (result_messages (agent [HumanMessage (verification_user_content st)]))) \<longrightarrow>
      u_answer (verification_node agent st) = Some (Some []))"
  by (simp add: summarization_node_def verification_node_def Let_def no_update_def
      extract_last_ai_content_none)

theorem draft_and_answer_are_strings_witness:
  "(\<forall>c. AIMessage c \<notin> set (result_messages (summarization_agent silent_agents [HumanMessage (summarization_user_content (fresh_state ''q''))]))) \<and>
   u_draft_answer (summarization_node (summarization_agent silent_agents) (fresh_state ''q'')) = Some (Some []) \<and>
   (\<forall>c. AIMessage c \<notin> set (result_messages (verification_agent silent_agents [HumanMessage (verification_user_content (fresh_state ''q''))]))) \<and>
   u_answer (verification_node (verification_agent silent_agents) (fresh_state ''q'')) = Some (Some [])"
  using draft_and_answer_are_strings [of "summarization_agent silent_agents" "fresh_state ''q''"]
    draft_and_answer_are_strings [of "verification_agent silent_agents" "fresh_state ''q''"]
  by (simp add: silent_agents_def result_messages_def)

subsection \<open>What the deltas touch\<close>

lemma planner_node_returns:
  "\<exists>p sq. planner_node agent st = Inr (no_update\<lparr>u_plan := Some p, u_sub_questions := Some sq\<rparr>)"
proof -
  obtain p sq where "parse_plan_and_subquestions
      (extract_last_ai_content (result_messages (agent (planner_agent_messages st)))) = Inr (p, sq)"
    using parse_returns by blast
  then have "planner_node agent st
      = Inr (no_update\<lparr>u_plan := Some p, u_sub_questions := Some sq\<rparr>)"
    by (simp add: planner_node_def Let_def)
  then show ?thesis by blast
qed

text \<open>
  Claim C9. The dicts returned by the Plan, Retrieve and Summarize stages have no
  \<open>messages\<close> entry; the dict returned by the Verify stage has one, the single assistant
  entry that carries the answer; and no stage returns a \<open>question\<close> entry.
\<close>

theorem stage_deltas_frame:
  "(\<exists>u. planner_node a1 st = Inr u \<and> u_messages u = None \<and> u_question u = None) \<and>
   u_messages (retrieval_node a2 st) = None \<and> u_question (retrieval_node a2 st) = None \<and>
   u_messages (summarization_node a3 st) = None \<and> u_question (summarization_node a3 st) = None \<and>
   (\<exists>a. u_messages (verification_node a4 st) = Some [\<lparr>role = ''assistant'', content = a\<rparr>] \<and>
        u_answer (verification_node a4 st) = Some (Some a)) \<and>
   u_question (verification_node a4 st) = None"
proof -
  obtain p sq where "planner_node a1 st = Inr (no_update\<lparr>u_plan := Some p, u_sub_questions := Some sq\<rparr>)"
    using planner_node_returns by blast
  then have "\<exists>u. planner_node a1 st = Inr u \<and> u_messages u = None \<and> u_question u = None"
    by (simp add: no_update_def)
  then show ?thesis
    by (simp add: retrieval_node_def summarization_node_def verification_node_def Let_def
        no_update_def)
qed

subsection \<open>Plan: the window of history\<close>

lemma history_to_agent_messages_map_filter:
  "history_to_agent_messages h =
     map (\<lambda>m. if role m = ''user'' then HumanMessage (content m) else AIMessage (content m))
       (filter (\<lambda>m. role m = ''user'' \<or> role m = ''assistant'') h)"
  by (induction h) auto

text \<open>
  Claim C3, as the code has it. The Plan stage sends the planning capability the last six
  \<^emph>\<open>entries\<close> of \<open>messages\<close> (all of them when there are at most six), each user entry
  as a human message and each assistant entry as an assistant message, entries of any
  other role being skipped, followed by the question as a human message. Older entries
  have no influence, and the stage depends on the capability only through its response
  to this sequence.
\<close>

theorem planner_window:
  "(length recent = 6 \<longrightarrow>
      planner_agent_messages (st\<lparr>messages := older @ recent\<rparr>)
        = history_to_agent_messages recent @ [HumanMessage (question st)]) \<and>
   (length (messages st) \<le> 6 \<longrightarrow>
      planner_agent_messages st
        = history_to_agent_messages (messages st) @ [HumanMessage (question st)]) \<and>
   history_to_agent_messages h =
     map (\<lambda>m. if role m = ''user'' then HumanMessage (content m) else AIMessage (content m))
       (filter (\<lambda>m. role m = ''user'' \<or> role m = ''assistant'') h) \<and>
   (agent (planner_agent_messages st) = agent' (planner_agent_messages st) \<longrightarrow>
      planner_node agent st = planner_node agent' st)"
proof -
  have window: "planner_agent_messages (st\<lparr>messages := older @ recent\<rparr>)
        = history_to_agent_messages recent @ [HumanMessage (question st)]"
    if "length recent = 6"
    using that by (simp add: planner_agent_messages_def last_n_def)
  have short: "planner_agent_messages st
        = history_to_agent_messages (messages st) @ [HumanMessage (question st)]"
    if "length (messages st) \<le> 6"
    using that by (simp add: planner_agent_messages_def last_n_def)
  have node: "planner_node agent st = planner_node agent' st"
    if "agent (planner_agent_messages st) = agent' (planner_agent_messages st)"
    using that by (simp add: planner_node_def)
  from window short node show ?thesis
    using history_to_agent_messages_map_filter by blast
qed

theorem planner_window_witness:
  "length (drop 3 (messages long_session)) = 6 \<and>
   planner_agent_messages (long_session\<lparr>messages := take 3 (messages long_session) @ drop 3 (messages long_session)\<rparr>)
     = [AIMessage ''a2'', HumanMessage ''q3'', AIMessage ''a3'', HumanMessage ''q4'',
        AIMessage ''a4'', HumanMessage ''q5'', HumanMessage ''q5''] \<and>
   length (messages second_turn) \<le> 6 \<and>
   planner_agent_messages second_turn
     = [HumanMessage ''q1'', AIMessage ''a1'', HumanMessage ''q2'', HumanMessage ''q2'']"
  using planner_window [where recent = "drop 3 (messages long_session)" and st = long_session
      and older = "take 3 (messages long_session)"]
    planner_window [where st = second_turn]
  by (simp add: long_session_def second_turn_def)

text \<open>
  Claim C3 as stated keeps the last six turns. In a session with four completed turns
  the code sends the last six entries, from the second answer on, where six turns would
  cover the whole history.
\<close>

theorem planner_six_turns_counterexample:
  "planner_agent_messages long_session
     = [AIMessage ''a2'', HumanMessage ''q3'', AIMessage ''a3'', HumanMessage ''q4'',
        AIMessage ''a4'', HumanMessage ''q5'', HumanMessage ''q5''] \<and>
   spec_planner_agent_messages long_session
     = [HumanMessage ''q1'', AIMessage ''a1'', HumanMessage ''q2'', AIMessage ''a2'',
        HumanMessage ''q3'', AIMessage ''a3'', HumanMessage ''q4'', AIMessage ''a4'',
        HumanMessage ''q5'', HumanMessage ''q5''] \<and>
   planner_agent_messages long_session \<noteq> spec_planner_agent_messages long_session"
  by (simp add: planner_agent_messages_def spec_planner_agent_messages_def last_n_def
      long_session_def)

subsection \<open>Retrieve: the query text\<close>

lemma last_assistant_content_snoc:
  "last_assistant_content (ms @ [m]) =
     (if role m = ''assistant'' then Some (content m) else last_assistant_content ms)"
  by (simp add: last_assistant_content_def)

lemma last_assistant_content_found:
  assumes "role e = ''assistant''" "\<forall>m \<in> set post. role m \<noteq> ''assistant''"
  shows "last_assistant_content (pre @ e # post) = Some (content e)"
  using assms(2)
proof (induction post rule: rev_induct)
  case Nil
  show ?case using assms(1) last_assistant_content_snoc [of pre e] by simp
next
  case (snoc m post)
  then show ?case
    using last_assistant_content_snoc [of "pre @ e # post" m] by simp
qed

lemma last_assistant_content_split:
  "last_assistant_content ms = Some a \<Longrightarrow>
     \<exists>pre e post. ms = pre @ e # post \<and> role e = ''assistant'' \<and> content e = a \<and>
       (\<forall>m \<in> set post. role m \<noteq> ''assistant'')"
proof (induction ms rule: rev_induct)
  case Nil
  then show ?case by (simp add: last_assistant_content_def)
next
  case (snoc m ms)
  show ?case
  proof (cases "role m = ''assistant''")
    case True
    with snoc.prems have "content m = a"
      by (simp add: last_assistant_content_snoc)
    with True have "ms @ [m] = ms @ m # [] \<and> role m = ''assistant'' \<and> content m = a \<and>
       (\<forall>x \<in> set []. role x \<noteq> ''assistant'')" by simp
    then show ?thesis by blast
  next
    case False
    with snoc.prems have "last_assistant_content ms = Some a"
      by (simp add: last_assistant_content_snoc)
    then obtain pre e post where d: "ms = pre @ e # post" "role e = ''assistant''"
        "content e = a" "\<forall>x \<in> set post. role x \<noteq> ''assistant''"
      using snoc.IH by blast
    with False have "ms @ [m] = pre @ e # (post @ [m]) \<and> role e = ''assistant'' \<and>
        content e = a \<and> (\<forall>x \<in> set (post @ [m]). role x \<noteq> ''assistant'')" by simp
    then show ?thesis by blast
  qed
qed

lemma context_note_present:
  assumes "2 \<le> length (pre @ e # post)" "role e = ''assistant''" "content e \<noteq> []"
    "\<forall>m \<in> set post. role m \<noteq> ''assistant''"
  shows "context_note (pre @ e # post) =
     [newline] @ ''[Previous answer excerpt: '' @ take 200 (content e) @ ''...]'' @ [newline]"
  using assms last_assistant_content_found [of e post pre]
  by (simp add: context_note_def)

lemma context_note_nonempty:
  assumes "context_note ms \<noteq> []"
  shows "2 \<le> length ms \<and>
     (\<exists>pre e post. ms = pre @ e # post \<and> role e = ''assistant'' \<and> content e \<noteq> [] \<and>
        (\<forall>m \<in> set post. role m \<noteq> ''assistant''))"
proof -
  from assms have len: "2 \<le> length ms"
    by (auto simp: context_note_def split: if_splits)
  from assms obtain a where a: "last_assistant_content ms = Some a" "a \<noteq> []"
    by (auto simp: context_note_def split: if_splits option.splits)
  from last_assistant_content_split [OF a(1)] a(2) len show ?thesis by blast
qed

text \<open>
  Claim C4, as the code has it. The query text of the Retrieve stage is the continuity
  hint, the question, the plan (rendered \<open>None\<close> when null) and the sub-questions, one
  bullet each, or the marker \<open>None\<close> when \<open>sub_questions\<close> is null or empty. The hint is
  present exactly when the history has two or more \<^emph>\<open>entries\<close> and its most recent
  assistant entry has a non-empty content; it then holds the first 200 characters of
  that content.
\<close>

theorem retrieval_query_text:
  "retrieval_user_content st =
     context_note (messages st) @ ''Question: '' @ question st
       @ [newline, newline] @ ''Plan:'' @ [newline] @ format_opt (plan st)
       @ [newline, newline] @ ''Sub-Questions:'' @ [newline]
       @ format_subqs (sub_questions st) \<and>
   format_opt None = ''None'' \<and> format_opt (Some p) = p \<and>
   format_subqs None = ''None'' \<and> format_subqs (Some []) = ''None'' \<and>
   format_subqs (Some (q # qs)) = join [newline] (map (\<lambda>sq. ''- '' @ sq) (q # qs)) \<and>
   (2 \<le> length (pre @ e # post) \<and> role e = ''assistant'' \<and> content e \<noteq> [] \<and>
      (\<forall>m \<in> set post. role m \<noteq> ''assistant'') \<longrightarrow>
      context_note (pre @ e # post) =
        [newline] @ ''[Previous answer excerpt: '' @ take 200 (content e) @ ''...]''
          @ [newline]) \<and>
   (context_note ms \<noteq> [] \<longrightarrow>
      2 \<le> length ms \<and>
      (\<exists>pre e post. ms = pre @ e # post \<and> role e = ''assistant'' \<and> content e \<noteq> [] \<and>
         (\<forall>m \<in> set post. role m \<noteq> ''assistant'')))"
proof -
  have shape: "retrieval_user_content st =
     context_note (messages st) @ ''Question: '' @ question st
       @ [newline, newline] @ ''Plan:'' @ [newline] @ format_opt (plan st)
       @ [newline, newline] @ ''Sub-Questions:'' @ [newline]
       @ format_subqs (sub_questions st)"
    by (simp add: retrieval_user_content_def)
  have fmt: "format_opt None = ''None''" "format_opt (Some p) = p"
    "format_subqs None = ''None''" "format_subqs (Some []) = ''None''"
    by (simp_all add: format_opt_def format_subqs_def)
  have bullets:
    "format_subqs (Some (q # qs)) = join [newline] (map (\<lambda>sq. ''- '' @ sq) (q # qs))"
    by (simp only: format_subqs_def option.case list.simps if_False)
  from shape fmt bullets show ?thesis
    using context_note_present [of pre e post] context_note_nonempty [of ms] by blast
qed

theorem retrieval_query_text_witness:
  "2 \<le> length ([\<lparr>role = ''user'', content = ''q1''\<rparr>] @ \<lparr>role = ''assistant'', content = ''a1''\<rparr> # [\<lparr>role = ''user'', content = ''q2''\<rparr>]) \<and>
   role \<lparr>role = ''assistant'', content = ''a1''\<rparr> = ''assistant'' \<and>
   content \<lparr>role = ''assistant'', content = ''a1''\<rparr> \<noteq> [] \<and>
   role \<lparr>role = ''user'', content = ''q2''\<rparr> \<noteq> ''assistant'' \<and>
   context_note (messages second_turn)
     = [newline] @ ''[Previous answer excerpt: a1...]'' @ [newline] \<and>
   retrieval_user_content second_turn
     = [newline] @ ''[Previous answer excerpt: a1...]'' @ [newline] @ ''Question: q2''
         @ [newline, newline] @ ''Plan:'' @ [newline] @ ''None''
         @ [newline, newline] @ ''Sub-Questions:'' @ [newline] @ ''None''"
  using retrieval_query_text [where st = second_turn
      and pre = "[\<lparr>role = ''user'', content = ''q1''\<rparr>]"
      and e = "\<lparr>role = ''assistant'', content = ''a1''\<rparr>"
      and post = "[\<lparr>role = ''user'', content = ''q2''\<rparr>]"]
  by (simp add: second_turn_def)

text \<open>
  Claim C4 as stated asks for two or more prior turns. In the second turn of a session,
  with one prior turn, the history already has three entries and the query carries the
  hint.
\<close>

theorem retrieval_hint_after_one_turn_counterexample:
  "spec_prior_turns (messages second_turn) = 1 \<and>
   retrieval_user_content second_turn
     = [newline] @ ''[Previous answer excerpt: a1...]'' @ [newline] @ ''Question: q2''
         @ [newline, newline] @ ''Plan:'' @ [newline] @ ''None''
         @ [newline, newline] @ ''Sub-Questions:'' @ [newline] @ ''None''"
  by (simp add: spec_prior_turns_def second_turn_def retrieval_user_content_def
      context_note_def last_assistant_content_def format_opt_def format_subqs_def)


section \<open>Properties of the entry point\<close>

subsection \<open>One run of the graph\<close>

lemma apply_update_fields:
  "question (apply_update rd s u) = (case u_question u of None \<Rightarrow> question s | Some v \<Rightarrow> v)"
  "context (apply_update rd s u) = (case u_context u of None \<Rightarrow> context s | Some v \<Rightarrow> v)"
  "draft_answer (apply_update rd s u)
     = (case u_draft_answer u of None \<Rightarrow> draft_answer s | Some v \<Rightarrow> v)"
  "answer (apply_update rd s u) = (case u_answer u of None \<Rightarrow> answer s | Some v \<Rightarrow> v)"
  "messages (apply_update rd s u)
     = (case u_messages u of None \<Rightarrow> messages s | Some new \<Rightarrow> rd (messages s) new)"
  by (simp_all add: apply_update_def)

lemma retrieval_node_fields:
  "u_question (retrieval_node agent s) = None"
  "\<exists>c. u_context (retrieval_node agent s) = Some (Some c)"
  "u_draft_answer (retrieval_node agent s) = None"
  "u_answer (retrieval_node agent s) = None"
  "u_messages (retrieval_node agent s) = None"
  by (simp_all add: retrieval_node_def Let_def no_update_def)

lemma summarization_node_fields:
  "u_question (summarization_node agent s) = None"
  "u_context (summarization_node agent s) = None"
  "\<exists>d. u_draft_answer (summarization_node agent s) = Some (Some d)"
  "u_answer (summarization_node agent s) = None"
  "u_messages (summarization_node agent s) = None"
  by (simp_all add: summarization_node_def Let_def no_update_def)

lemma verification_node_fields:
  "u_question (verification_node agent s) = None"
  "u_context (verification_node agent s) = None"
  "u_draft_answer (verification_node agent s) = None"
  "\<exists>a. u_answer (verification_node agent s) = Some (Some a) \<and>
       u_messages (verification_node agent s) = Some [\<lparr>role = ''assistant'', content = a\<rparr>]"
  by (simp_all add: verification_node_def Let_def no_update_def)

lemma graph_invoke_returns:
  "\<exists>s. graph_invoke rd ags saver tid input = Inr (s, saver(tid \<mapsto> s)) \<and>
     question s = question input \<and>
     (\<exists>c. context s = Some c) \<and> (\<exists>d. draft_answer s = Some d) \<and>
     (\<exists>a. answer s = Some a \<and>
        messages s =
          rd (rd (case saver tid of None \<Rightarrow> [] | Some prev \<Rightarrow> messages prev) (messages input))
            [\<lparr>role = ''assistant'', content = a\<rparr>])"
proof -
  define resumed where
    "resumed = (case saver tid of None \<Rightarrow> blank_state | Some st \<Rightarrow> st)"
  define s0 where "s0 = apply_update rd resumed (input_update input)"
  obtain p sq where plan:
    "planner_node (planner_agent ags) s0
       = Inr (no_update\<lparr>u_plan := Some p, u_sub_questions := Some sq\<rparr>)"
    using planner_node_returns by blast
  define s1 where
    "s1 = apply_update rd s0 (no_update\<lparr>u_plan := Some p, u_sub_questions := Some sq\<rparr>)"
  define s2 where "s2 = apply_update rd s1 (retrieval_node (retrieval_agent ags) s1)"
  define s3 where "s3 = apply_update rd s2 (summarization_node (summarization_agent ags) s2)"
  define s4 where "s4 = apply_update rd s3 (verification_node (verification_agent ags) s3)"
  have run: "graph_invoke rd ags saver tid input = Inr (s4, saver(tid \<mapsto> s4))"
    using plan
    by (simp add: graph_invoke_def Let_def resumed_def s0_def s1_def s2_def s3_def s4_def)
  have before: "messages resumed = (case saver tid of None \<Rightarrow> [] | Some prev \<Rightarrow> messages prev)"
    by (simp add: resumed_def blank_state_def split: option.split)
  define h where
    "h = rd (case saver tid of None \<Rightarrow> [] | Some prev \<Rightarrow> messages prev) (messages input)"
  have zero: "question s0 = question input" "messages s0 = h"
    using before by (simp_all add: s0_def apply_update_fields input_update_def h_def)
  have one: "question s1 = question input" "messages s1 = h"
    using zero by (simp_all add: s1_def apply_update_fields no_update_def)
  obtain c where two: "question s2 = question input" "messages s2 = h"
      "context s2 = Some c"
    using one retrieval_node_fields [of "retrieval_agent ags" s1]
    by (auto simp: s2_def apply_update_fields)
  obtain d where three: "question s3 = question input" "messages s3 = h"
      "context s3 = Some c" "draft_answer s3 = Some d"
    using two summarization_node_fields [of "summarization_agent ags" s2]
    by (auto simp: s3_def apply_update_fields)
  obtain a where four: "question s4 = question input"
      "messages s4 = rd h [\<lparr>role = ''assistant'', content = a\<rparr>]"
      "context s4 = Some c" "draft_answer s4 = Some d" "answer s4 = Some a"
    using three verification_node_fields [of "verification_agent ags" s3]
    by (auto simp: s4_def apply_update_fields)
  from run four show ?thesis unfolding h_def by blast
qed


lemma run_qa_flow_history:
  "\<exists>final a. run_qa_flow rd ags uuid4 saver q sid
        = Inr (with_session_id final (thread_id_for sid uuid4),
               saver(thread_id_for sid uuid4 \<mapsto> final)) \<and>
     question final = q \<and> (\<exists>c. context final = Some c) \<and> (\<exists>d. draft_answer final = Some d) \<and>
     answer final = Some a \<and>
     messages final =
       rd (rd (case saver (thread_id_for sid uuid4) of None \<Rightarrow> [] | Some prev \<Rightarrow> messages prev)
             ((case saver (thread_id_for sid uuid4) of None \<Rightarrow> [] | Some prev \<Rightarrow> messages prev)
                @ [\<lparr>role = ''user'', content = q\<rparr>]))
          [\<lparr>role = ''assistant'', content = a\<rparr>]"
proof -
  define tid where "tid = thread_id_for sid uuid4"
  define input where "input =
     \<lparr>question = q, plan = None, sub_questions = None, context = None,
      draft_answer = None, answer = None, messages = initial_messages (saver tid) q\<rparr>"
  obtain final a where final:
      "graph_invoke rd ags saver tid input = Inr (final, saver(tid \<mapsto> final))"
      "question final = question input"
      "\<exists>c. context final = Some c" "\<exists>d. draft_answer final = Some d" "answer final = Some a"
      "messages final =
         rd (rd (case saver tid of None \<Rightarrow> [] | Some prev \<Rightarrow> messages prev) (messages input))
           [\<lparr>role = ''assistant'', content = a\<rparr>]"
    using graph_invoke_returns [of rd ags saver tid input] by blast
  have init: "messages input =
       (case saver tid of None \<Rightarrow> [] | Some prev \<Rightarrow> messages prev)
         @ [\<lparr>role = ''user'', content = q\<rparr>]"
    by (simp add: input_def initial_messages_def split: option.split)
  have run: "run_qa_flow rd ags uuid4 saver q sid =
      Inr (with_session_id final tid, saver(tid \<mapsto> final))"
    using final(1) by (simp add: run_qa_flow_def Let_def input_def tid_def)
  have asked: "question final = q"
    using final(2) by (simp add: input_def)
  have history: "messages final =
       rd (rd (case saver tid of None \<Rightarrow> [] | Some prev \<Rightarrow> messages prev)
             ((case saver tid of None \<Rightarrow> [] | Some prev \<Rightarrow> messages prev)
                @ [\<lparr>role = ''user'', content = q\<rparr>]))
          [\<lparr>role = ''assistant'', content = a\<rparr>]"
    using final(6) init by simp
  from run asked final(3,4,5) history show ?thesis unfolding tid_def by blast
qed

text \<open>
  The history a run leaves under each of the two declarations: with the appending rule
  the stored history is written to itself before the new question, and with the
  last-value rule the assistant entry of the Verify stage replaces everything.
\<close>

lemma run_qa_flow_operator_add:
  "\<exists>final a. run_qa_flow operator_add ags uuid4 saver q sid
        = Inr (with_session_id final (thread_id_for sid uuid4),
               saver(thread_id_for sid uuid4 \<mapsto> final)) \<and>
     answer final = Some a \<and>
     messages final =
       (case saver (thread_id_for sid uuid4) of None \<Rightarrow> [] | Some prev \<Rightarrow> messages prev)
         @ (case saver (thread_id_for sid uuid4) of None \<Rightarrow> [] | Some prev \<Rightarrow> messages prev)
         @ [\<lparr>role = ''user'', content = q\<rparr>, \<lparr>role = ''assistant'', content = a\<rparr>]"
  using run_qa_flow_history [of operator_add ags uuid4 saver q sid]
  by (auto simp: operator_add_def)

lemma run_qa_flow_last_value:
  "\<exists>final a. run_qa_flow last_value ags uuid4 saver q sid
        = Inr (with_session_id final (thread_id_for sid uuid4),
               saver(thread_id_for sid uuid4 \<mapsto> final)) \<and>
     answer final = Some a \<and>
     messages final = [\<lparr>role = ''assistant'', content = a\<rparr>]"
  using run_qa_flow_history [of last_value ags uuid4 saver q sid]
  by (auto simp: last_value_def)

subsection \<open>The history across runs\<close>

text \<open>
  Claim C1 asks that a run on a fresh session leave a history of exactly two entries,
  the user question and the final assistant answer, and that a second run with the same
  session identifier leave the previous history followed by exactly two new entries. The
  code does not do so under either declaration of \<open>messages\<close>. \<open>run_qa_flow\<close> sends the
  stored history again, with the new question, as the input of a thread whose checkpoint
  already holds it: with the appending rule the second run leaves six entries, the first
  turn twice, and with the last-value rule every run leaves the assistant entry alone.
\<close>

theorem second_run_repeats_history:
  "map_sum id (map_prod messages messages)
     (two_runs operator_add demo_agents ''s-1'' ''q1'' ''q2'')
     = Inr ([\<lparr>role = ''user'', content = ''q1''\<rparr>, \<lparr>role = ''assistant'', content = ''final''\<rparr>],
            [\<lparr>role = ''user'', content = ''q1''\<rparr>, \<lparr>role = ''assistant'', content = ''final''\<rparr>,
             \<lparr>role = ''user'', content = ''q1''\<rparr>, \<lparr>role = ''assistant'', content = ''final''\<rparr>,
             \<lparr>role = ''user'', content = ''q2''\<rparr>, \<lparr>role = ''assistant'', content = ''final''\<rparr>]) \<and>
   map_sum id (map_prod messages messages)
     (two_runs last_value demo_agents ''s-1'' ''q1'' ''q2'')
     = Inr ([\<lparr>role = ''assistant'', content = ''final''\<rparr>],
            [\<lparr>role = ''assistant'', content = ''final''\<rparr>])"
  by code_simp

subsection \<open>The returned record and its session identifier\<close>




end
